theory Spec2Isabelle
  imports Main
begin

section \<open>JavaScript values shared by both servers\<close>

text \<open>
  The repository holds two MCP servers for Salesforce: \<^verbatim>\<open>src/unnamed/part_000\<close> shells
  out to the \<^verbatim>\<open>sf\<close> CLI, \<^verbatim>\<open>src/server/index.js\<close> calls the REST API itself and keeps
  a credential file. Both are embedded here function by function: the first sections
  hold the embedding, each definition under the source text it is taken from, and the
  sections named Properties hold what is proved of it. A thrown JavaScript error is a
  value of \<open>exn\<close>; a function that may throw returns \<open>exn + 'a\<close> with \<open>Inl\<close> for the
  throw.
\<close>

datatype exn = Error string | TypeError string | SyntaxError string

fun message :: "exn \<Rightarrow> string" where
  "message (Error m) = m"
| "message (TypeError m) = m"
| "message (SyntaxError m) = m"

text \<open>
  A string-valued JavaScript expression that may also be \<^verbatim>\<open>undefined\<close> is a
  \<open>string option\<close>. It is truthy when it is a non-empty string.
\<close>

fun truthy_str :: "string option \<Rightarrow> bool" where
  "truthy_str None = False"
| "truthy_str (Some s) = (s \<noteq> [])"

section \<open>The CLI server: \<^verbatim>\<open>runSf\<close>\<close>

text \<open>
  \<^verbatim>\<open>execFileAsync(SF_PATH, args, ...)\<close> either resolves with the two output strings or
  rejects with an error object that carries \<^verbatim>\<open>message\<close> and, when the child ran,
  \<^verbatim>\<open>stdout\<close> and \<^verbatim>\<open>stderr\<close> (both \<^verbatim>\<open>undefined\<close> when the call threw before a
  child existed). The operating system is the parameter \<open>exec\<close>.
\<close>

datatype exec_result =
    Exited string string
  | Failed string "string option" "string option"

text \<open>
  \<^verbatim>\<open>
  async function runSf(args) {
    try {
      const { stdout, stderr } = await execFileAsync(SF_PATH, args, {...});
      return stdout || stderr;
    } catch (err) {
      if (err.stdout) return err.stdout;
      if (err.stderr) return err.stderr;
      throw new Error(`sf command failed: ${err.message}`);
    }
  }
  \<close>
\<close>

definition runSf :: "('a \<Rightarrow> exec_result) \<Rightarrow> 'a \<Rightarrow> exn + string" where
  "runSf exec args =
     (case exec args of
        Exited out err \<Rightarrow> Inr (if out \<noteq> [] then out else err)
      | Failed msg out err \<Rightarrow>
          if truthy_str out then Inr (the out)
          else if truthy_str err then Inr (the err)
          else Inl (Error (''sf command failed: '' @ msg)))"

section \<open>The CLI server: \<^verbatim>\<open>sf_run_command\<close>\<close>

text \<open>
  A JavaScript string is a sequence of UTF-16 code units, and the regular expression
  \<^verbatim>\<open>/\s+/\<close> (no \<^verbatim>\<open>u\<close> flag) works on code units, so the command is a \<open>nat list\<close>
  here. \<^verbatim>\<open>\s\<close> matches the WhiteSpace and LineTerminator code points of ECMAScript.
\<close>

definition js_whitespace :: "nat \<Rightarrow> bool" where
  "js_whitespace c \<longleftrightarrow>
     c \<in> {0x09, 0x0A, 0x0B, 0x0C, 0x0D, 0x20, 0xA0, 0x1680, 0x2028, 0x2029, 0x202F,
          0x205F, 0x3000, 0xFEFF}
     \<or> (0x2000 \<le> c \<and> c \<le> 0x200A)"


text \<open>
  \<^verbatim>\<open>command.split(/\s+/)\<close>: the string is cut at every maximal run of whitespace. A
  run at the start or at the end leaves an empty string there, and the empty command
  gives one empty string. \<open>cur\<close> is the piece being read.
\<close>

function split_ws :: "nat list \<Rightarrow> nat list \<Rightarrow> nat list list" where
  "split_ws cur [] = [cur]"
| "split_ws cur (c # cs) =
     (if js_whitespace c then cur # split_ws [] (dropWhile js_whitespace cs)
      else split_ws (cur @ [c]) cs)"
  by pat_completeness auto
termination
  by (relation "measure (\<lambda>(cur, cs). length cs)")
     (auto simp: le_imp_less_Suc length_dropWhile_le)






section \<open>The REST server: JavaScript objects used as dictionaries\<close>

text \<open>
  \<^verbatim>\<open>src/server/index.js\<close> keeps its credentials in a plain object \<^verbatim>\<open>orgs\<close> and its
  handlers in the object literal \<^verbatim>\<open>TOOL_HANDLERS\<close>, and reads both with \<^verbatim>\<open>obj[key]\<close>.
  An object is modelled by its own properties in the order \<^verbatim>\<open>Object.keys\<close> lists them.
  Reading \<^verbatim>\<open>obj[key]\<close> is not a lookup among the own properties only: a key that the
  object does not own is looked up in \<^verbatim>\<open>Object.prototype\<close>, which both objects
  inherit from (\<^verbatim>\<open>{}\<close>, an object literal and the result of \<^verbatim>\<open>JSON.parse\<close> all do).
  \<open>Object_prototype_names\<close> are the twelve properties \<^verbatim>\<open>Object.prototype\<close> has; eleven
  are functions and \<^verbatim>\<open>__proto__\<close> reads as \<^verbatim>\<open>Object.prototype\<close> itself, so each of them
  is truthy.
\<close>

type_synonym 'v obj = "(string \<times> 'v) list"

definition Object_prototype_names :: "string list" where
  "Object_prototype_names =
     [''constructor'', ''__defineGetter__'', ''__defineSetter__'', ''hasOwnProperty'',
      ''__lookupGetter__'', ''__lookupSetter__'', ''isPrototypeOf'',
      ''propertyIsEnumerable'', ''toString'', ''valueOf'', ''__proto__'',
      ''toLocaleString'']"

datatype 'v lookup = Own 'v | Inherited | Undefined

text \<open>\<^verbatim>\<open>obj[key]\<close>, read.\<close>

definition get_prop :: "'v obj \<Rightarrow> string \<Rightarrow> 'v lookup" where
  "get_prop obj key =
     (case map_of obj key of
        Some v \<Rightarrow> Own v
      | None \<Rightarrow> if key \<in> set Object_prototype_names then Inherited else Undefined)"

text \<open>
  Truthiness of what was read. An own property of the objects here is a credential
  record or a handler function, never a primitive.
\<close>

fun truthy_prop :: "'v lookup \<Rightarrow> bool" where
  "truthy_prop (Own v) = True"
| "truthy_prop Inherited = True"
| "truthy_prop Undefined = False"

definition Object_keys :: "'v obj \<Rightarrow> string list" where
  "Object_keys obj = map fst obj"

text \<open>\<^verbatim>\<open>delete obj[key]\<close> removes an own property and does nothing else.\<close>

definition delete_prop :: "'v obj \<Rightarrow> string \<Rightarrow> 'v obj" where
  "delete_prop obj key = filter (\<lambda>(k, v). k \<noteq> key) obj"

text \<open>
  \<^verbatim>\<open>obj[key] = v\<close>. An own property keeps its place. A new key that is an array index
  (a canonical decimal numeral up to \<open>2^32 - 2\<close>) is listed among the array indices, in
  numeric order, before every other key; any other new key is listed last. The key
  \<^verbatim>\<open>__proto__\<close>, when not owned, reaches the setter of \<^verbatim>\<open>Object.prototype\<close>: it
  replaces the prototype of the object and creates no own property.
\<close>

definition is_digit :: "char \<Rightarrow> bool" where
  "is_digit c \<longleftrightarrow> 48 \<le> (of_char c :: nat) \<and> (of_char c :: nat) \<le> 57"

definition digit_value :: "char \<Rightarrow> nat" where
  "digit_value c = of_char c - 48"

definition index_value :: "string \<Rightarrow> nat" where
  "index_value s = foldl (\<lambda>n c. 10 * n + digit_value c) 0 s"

definition is_array_index :: "string \<Rightarrow> bool" where
  "is_array_index s \<longleftrightarrow>
     s \<noteq> [] \<and> list_all is_digit s \<and> (s = ''0'' \<or> hd s \<noteq> CHR ''0'')
     \<and> index_value s \<le> 4294967294"

fun insert_index :: "string \<Rightarrow> 'v \<Rightarrow> 'v obj \<Rightarrow> 'v obj" where
  "insert_index key v [] = [(key, v)]"
| "insert_index key v ((k, w) # rest) =
     (if is_array_index k \<and> index_value k < index_value key
      then (k, w) # insert_index key v rest
      else (key, v) # (k, w) # rest)"

definition set_prop :: "'v obj \<Rightarrow> string \<Rightarrow> 'v \<Rightarrow> 'v obj" where
  "set_prop obj key v =
     (if key \<in> set (map fst obj)
      then map (\<lambda>(k, w). if k = key then (k, v) else (k, w)) obj
      else if key = ''__proto__'' then obj
      else if is_array_index key then insert_index key v obj
      else obj @ [(key, v)])"

section \<open>The REST server: the credential store\<close>

text \<open>
  A JSON value, as \<^verbatim>\<open>JSON.parse\<close> and \<^verbatim>\<open>res.json()\<close> return it. Numbers are kept as
  integers: the program only tests whether a value is truthy. A property that may be
  absent (\<^verbatim>\<open>undefined\<close>) is a \<open>json option\<close>.
\<close>

datatype json = JNull | JBool bool | JNum int | JStr string
  | JArr "json list" | JObj "(string \<times> json) list"

type_synonym jsval = "json option"

fun truthy :: "jsval \<Rightarrow> bool" where
  "truthy None = False"
| "truthy (Some JNull) = False"
| "truthy (Some (JBool b)) = b"
| "truthy (Some (JNum n)) = (n \<noteq> 0)"
| "truthy (Some (JStr s)) = (s \<noteq> [])"
| "truthy (Some (JArr xs)) = True"
| "truthy (Some (JObj kvs)) = True"

text \<open>
  The credential record that \<^verbatim>\<open>oauthLogin\<close> builds (\<^verbatim>\<open>orgData\<close>). The field
  \<^verbatim>\<open>refreshToken\<close> is \<open>refreshToken'\<close> here, since \<open>refreshToken\<close> is the function.
  \<^verbatim>\<open>getOrg\<close> returns a copy of the record with \<^verbatim>\<open>_alias\<close> (here \<open>alias'\<close>) added.
\<close>

record org =
  accessToken :: jsval
  refreshToken' :: jsval
  instanceUrl :: jsval
  loginUrl :: jsval
  username :: jsval
  orgId :: jsval
  displayName :: jsval
  authenticatedAt :: jsval

record got_org = org +
  alias' :: string

text \<open>
  The file \<^verbatim>\<open>~/.sf-claude/credentials.json\<close>: \<open>creds\<close> is the object it parses to, or
  \<open>None\<close> when the file is missing or is not JSON; \<open>writes\<close> counts the calls of
  \<^verbatim>\<open>writeFileSync\<close> on it. Reading and writing the file system never fail here.
  \<^verbatim>\<open>
  function loadOrgs() {
    if (!existsSync(CREDS_FILE)) return {};
    try { return JSON.parse(readFileSync(CREDS_FILE, "utf8")); } catch { return {}; }
  }
  function saveOrgs(orgs) {
    if (!existsSync(CREDS_DIR)) mkdirSync(CREDS_DIR, { recursive: true });
    writeFileSync(CREDS_FILE, JSON.stringify(orgs, null, 2));
  }
  \<close>
\<close>

record files =
  creds :: "org obj option"
  writes :: nat

definition loadOrgs :: "'a files_scheme \<Rightarrow> org obj" where
  "loadOrgs w = (case creds w of None \<Rightarrow> [] | Some orgs \<Rightarrow> orgs)"

definition saveOrgs :: "org obj \<Rightarrow> 'a files_scheme \<Rightarrow> 'a files_scheme" where
  "saveOrgs orgs w = w\<lparr>creds := Some orgs, writes := writes w + 1\<rparr>"

text \<open>
  \<^verbatim>\<open>{ _alias: key, ...orgs[key] }\<close>. Spreading a record copies its fields; spreading a
  built-in function or \<^verbatim>\<open>Object.prototype\<close> copies nothing, since they have no
  enumerable own property, and so does spreading \<^verbatim>\<open>undefined\<close>.
\<close>

definition no_fields :: org where
  "no_fields = \<lparr>accessToken = None, refreshToken' = None, instanceUrl = None,
     loginUrl = None, username = None, orgId = None, displayName = None,
     authenticatedAt = None\<rparr>"

definition spread :: "string \<Rightarrow> org lookup \<Rightarrow> got_org" where
  "spread key p =
     org.extend (case p of Own r \<Rightarrow> r | Inherited \<Rightarrow> no_fields | Undefined \<Rightarrow> no_fields)
       (got_org.fields key)"

text \<open>
  \<^verbatim>\<open>
  function getOrg(alias) {
    const orgs = loadOrgs();
    const key = alias || process.env.DEFAULT_ORG;
    if (key && orgs[key]) return { _alias: key, ...orgs[key] };
    const keys = Object.keys(orgs);
    if (keys.length === 0) {
      throw new Error("No Salesforce orgs connected. Use the sf_org_login tool to authenticate.");
    }
    return { _alias: keys[0], ...orgs[keys[0]] };
  }
  \<close>
  \<open>DEFAULT_ORG\<close> is the environment variable, \<open>None\<close> when it is not set.
\<close>

definition getOrg :: "string option \<Rightarrow> 'a files_scheme \<Rightarrow> string option \<Rightarrow> exn + got_org" where
  "getOrg DEFAULT_ORG w alias =
     (let orgs = loadOrgs w;
          key = (if truthy_str alias then alias else DEFAULT_ORG)
      in if truthy_str key \<and> truthy_prop (get_prop orgs (the key))
         then Inr (spread (the key) (get_prop orgs (the key)))
         else let keys = Object_keys orgs
              in if length keys = 0
                 then Inl (Error ''No Salesforce orgs connected. Use the sf_org_login tool to authenticate.'')
                 else Inr (spread (keys ! 0) (get_prop orgs (keys ! 0))))"

text \<open>
  \<^verbatim>\<open>
  async sf_org_logout({ alias }) {
    const orgs = loadOrgs();
    if (!orgs[alias]) return JSON.stringify({ error: `Org "${alias}" not found` });
    delete orgs[alias];
    saveOrgs(orgs);
    return JSON.stringify({ success: true, removed: alias });
  }
  \<close>
  The result here is the object that the handler serialises.
\<close>

definition quoted :: "string \<Rightarrow> string" where
  "quoted s = [CHR 0x22] @ s @ [CHR 0x22]"

definition sf_org_logout :: "string \<Rightarrow> 'a files_scheme \<Rightarrow> json \<times> 'a files_scheme" where
  "sf_org_logout alias w =
     (let orgs = loadOrgs w
      in if \<not> truthy_prop (get_prop orgs alias)
         then (JObj [(''error'', JStr (''Org '' @ quoted alias @ '' not found''))], w)
         else (JObj [(''success'', JBool True), (''removed'', JStr alias)],
               saveOrgs (delete_prop orgs alias) w))"

text \<open>The key that \<open>getOrg\<close> looks up: \<^verbatim>\<open>alias || process.env.DEFAULT_ORG\<close>.\<close>

definition requested_key :: "string option \<Rightarrow> string option \<Rightarrow> string option" where
  "requested_key DEFAULT_ORG alias = (if truthy_str alias then alias else DEFAULT_ORG)"

section \<open>Both servers: the \<^verbatim>\<open>CallToolRequestSchema\<close> handler\<close>

text \<open>
  The handler is the same text in both files:
  \<^verbatim>\<open>
  server.setRequestHandler(CallToolRequestSchema, async (request) => {
    const { name, arguments: args } = request.params;
    const handler = TOOL_HANDLERS[name];
    if (!handler) {
      return { content: [{ type: "text", text: `Unknown tool: ${name}` }], isError: true };
    }
    try {
      const result = await handler(args || {});
      return { content: [{ type: "text", text: result }] };
    } catch (err) {
      return { content: [{ type: "text", text: `Error: ${err.message}` }], isError: true };
    }
  });
  \<close>
  A tool handler takes the arguments object and returns a string or throws. The answer
  has one text item; \<open>isError\<close> is \<open>False\<close> when the answer has no such field. The text
  is a string, except where the value that came back from the call is the arguments
  object itself (\<open>Obj\<close>).
\<close>

datatype 'a tool_text = Str string | Obj 'a

record 'a tool_result =
  content_text :: "'a tool_text"
  isError :: bool

text \<open>
  The tables of the two servers: the property names of the literal \<^verbatim>\<open>TOOL_HANDLERS\<close>
  in \<^verbatim>\<open>src/server/index.js\<close> and in \<^verbatim>\<open>src/unnamed/part_000\<close>, in the order of the
  source; \<open>impl\<close> gives each name its function.
\<close>

definition TOOL_NAMES_rest :: "string list" where
  "TOOL_NAMES_rest =
     [''sf_org_login'', ''sf_org_logout'', ''sf_org_list'', ''sf_org_display'', ''sf_query'',
      ''sf_search'', ''sf_describe'', ''sf_list_objects'', ''sf_create_record'',
      ''sf_update_record'', ''sf_delete_record'', ''sf_get_record'', ''sf_apex_run'',
      ''sf_apex_test'', ''sf_apex_log'', ''sf_list_metadata'', ''sf_org_limits'',
      ''sf_rest_api'']"

definition TOOL_NAMES_cli :: "string list" where
  "TOOL_NAMES_cli =
     [''sf_org_list'', ''sf_org_display'', ''sf_query'', ''sf_search'', ''sf_describe'',
      ''sf_list_objects'', ''sf_create_record'', ''sf_update_record'', ''sf_delete_record'',
      ''sf_get_record'', ''sf_bulk_import'', ''sf_bulk_export'', ''sf_deploy'',
      ''sf_retrieve'', ''sf_apex_run'', ''sf_apex_test'', ''sf_apex_log'',
      ''sf_list_metadata'', ''sf_org_limits'', ''sf_rest_api'', ''sf_run_command'']"

definition TOOL_HANDLERS ::
  "string list \<Rightarrow> (string \<Rightarrow> 'a \<Rightarrow> exn + string) \<Rightarrow> ('a \<Rightarrow> exn + string) obj" where
  "TOOL_HANDLERS names impl = map (\<lambda>n. (n, impl n)) names"

text \<open>
  Calling what \<^verbatim>\<open>TOOL_HANDLERS[name]\<close> found in \<^verbatim>\<open>Object.prototype\<close>, as
  \<^verbatim>\<open>handler(args)\<close>, that is with \<^verbatim>\<open>this\<close> undefined. \<^verbatim>\<open>toString\<close> answers
  \<^verbatim>\<open>"[object Undefined]"\<close> for an undefined \<^verbatim>\<open>this\<close>; \<^verbatim>\<open>constructor\<close> is \<^verbatim>\<open>Object\<close>,
  which returns an object argument as it is; \<^verbatim>\<open>__proto__\<close> is not a function, and the
  other nine convert \<^verbatim>\<open>this\<close> to an object first: these ten throw a TypeError, whose
  message is the engine's (\<open>engine_msg\<close>).
\<close>

definition Object_prototype_call :: "(string \<Rightarrow> string) \<Rightarrow> string \<Rightarrow> 'a \<Rightarrow> exn + 'a tool_text" where
  "Object_prototype_call engine_msg name args =
     (if name = ''toString'' then Inr (Str ''[object Undefined]'')
      else if name = ''constructor'' then Inr (Obj args)
      else Inl (TypeError (engine_msg name)))"

definition call_tool ::
  "(string \<Rightarrow> string) \<Rightarrow> ('a \<Rightarrow> exn + string) obj \<Rightarrow> string \<Rightarrow> 'a \<Rightarrow> 'a tool_result" where
  "call_tool engine_msg handlers name args =
     (let handler = get_prop handlers name
      in if \<not> truthy_prop handler
         then \<lparr>content_text = Str (''Unknown tool: '' @ name), isError = True\<rparr>
         else case (case handler of
                      Own h \<Rightarrow> map_sum id Str (h args)
                    | Inherited \<Rightarrow> Object_prototype_call engine_msg name args
                    | Undefined \<Rightarrow> Inl (TypeError (engine_msg name))) of
                Inr result \<Rightarrow> \<lparr>content_text = result, isError = False\<rparr>
              | Inl err \<Rightarrow> \<lparr>content_text = Str (''Error: '' @ message err), isError = True\<rparr>)"

section \<open>The REST server: HTTP calls and the token refresh\<close>

text \<open>
  What the program reads of an HTTP response: \<^verbatim>\<open>res.status\<close>, \<^verbatim>\<open>res.ok\<close> (a status from
  200 to 299) and \<^verbatim>\<open>await res.json()\<close>, which throws when the body is not JSON.
\<close>

record response =
  status :: nat
  json_body :: "exn + json"

definition ok :: "response \<Rightarrow> bool" where
  "ok res \<longleftrightarrow> 200 \<le> status res \<and> status res \<le> 299"

text \<open>
  The two kinds of \<^verbatim>\<open>fetch\<close> call: a request to the org (\<^verbatim>\<open>doFetch(token)\<close>: the
  instance URL, the path after it, the bearer token) and the POST to
  \<^verbatim>\<open>${org.loginUrl}/services/oauth2/token\<close> (the login URL, the refresh token).
\<close>

datatype request =
    ApiRequest jsval string jsval
  | TokenRequest jsval jsval

text \<open>
  The world of one call: the credential file, the environment variable, the answers the
  network will give to the coming \<^verbatim>\<open>fetch\<close> calls in order (\<open>Inl\<close>: the call rejects),
  and the calls made so far. With no answer left \<^verbatim>\<open>fetch\<close> rejects.
\<close>

record world = files +
  DEFAULT_ORG :: "string option"
  replies :: "(exn + response) list"
  sent :: "request list"

definition fetch :: "request \<Rightarrow> world \<Rightarrow> (exn + response) \<times> world" where
  "fetch req w =
     (case replies w of
        [] \<Rightarrow> (Inl (TypeError ''fetch failed''), w\<lparr>sent := sent w @ [req]\<rparr>)
      | r # rs \<Rightarrow> (r, w\<lparr>replies := rs, sent := sent w @ [req]\<rparr>))"

text \<open>\<^verbatim>\<open>data.name\<close> for a parsed body; reading a property of \<^verbatim>\<open>null\<close> throws.\<close>

definition get_field :: "json \<Rightarrow> string \<Rightarrow> exn + jsval" where
  "get_field data name =
     (case data of
        JNull \<Rightarrow> Inl (TypeError (''Cannot read properties of null (reading ''
                      @ [CHR 0x27] @ name @ [CHR 0x27] @ '')''))
      | JObj kvs \<Rightarrow> Inr (map_of kvs name)
      | _ \<Rightarrow> Inr None)"

text \<open>\<^verbatim>\<open>orgs[key].field = v\<close>: the stored record under \<open>key\<close> is changed in place.\<close>

definition update_own :: "'v obj \<Rightarrow> string \<Rightarrow> ('v \<Rightarrow> 'v) \<Rightarrow> 'v obj" where
  "update_own obj key f = map (\<lambda>(k, r). if k = key then (k, f r) else (k, r)) obj"

text \<open>
  \<^verbatim>\<open>
  async function refreshToken(org) {
    const res = await fetch(`${org.loginUrl}/services/oauth2/token`, { method: "POST", ... });
    if (!res.ok) {
      throw new Error("Session expired. Re-authenticate with sf_org_login.");
    }
    const data = await res.json();
    const orgs = loadOrgs();
    if (orgs[org._alias]) {
      orgs[org._alias].accessToken = data.access_token;
      if (data.instance_url) orgs[org._alias].instanceUrl = data.instance_url;
      saveOrgs(orgs);
    }
    return data.access_token;
  }
  \<close>
  When \<^verbatim>\<open>orgs[org._alias]\<close> is a property of \<^verbatim>\<open>Object.prototype\<close>, the two assignments
  land on that built-in object and the store is saved as it was loaded.
\<close>

definition refreshToken :: "got_org \<Rightarrow> world \<Rightarrow> (exn + jsval) \<times> world" where
  "refreshToken org w =
     (case fetch (TokenRequest (loginUrl org) (refreshToken' org)) w of
        (Inl e, w1) \<Rightarrow> (Inl e, w1)
      | (Inr res, w1) \<Rightarrow>
          if \<not> ok res
          then (Inl (Error ''Session expired. Re-authenticate with sf_org_login.''), w1)
          else case json_body res of
                 Inl e \<Rightarrow> (Inl e, w1)
               | Inr data \<Rightarrow>
                   let orgs = loadOrgs w1
                   in if truthy_prop (get_prop orgs (alias' org))
                      then case get_field data ''access_token'' of
                             Inl e \<Rightarrow> (Inl e, w1)
                           | Inr token \<Rightarrow>
                               (case get_field data ''instance_url'' of
                                  Inl e \<Rightarrow> (Inl e, w1)
                                | Inr url \<Rightarrow>
                                    let orgs1 = update_own orgs (alias' org)
                                                  (\<lambda>r. r\<lparr>accessToken := token\<rparr>);
                                        orgs2 = (if truthy url
                                                 then update_own orgs1 (alias' org)
                                                        (\<lambda>r. r\<lparr>instanceUrl := url\<rparr>)
                                                 else orgs1)
                                    in (Inr token, saveOrgs orgs2 w1))
                      else (get_field data ''access_token'', w1))"

definition API_VERSION :: string where
  "API_VERSION = ''62.0''"

text \<open>
  \<^verbatim>\<open>
  async function sfRawApi(orgAlias, fullPath, opts = {}) {
    const org = getOrg(orgAlias);
    const doFetch = (token) => fetch(`${org.instanceUrl}${fullPath}`, {...});
    let res = await doFetch(org.accessToken);
    if (res.status === 401 && org.refreshToken) {
      const newToken = await refreshToken(org);
      res = await doFetch(newToken);
    }
    return res;
  }
  \<close>
  \<^verbatim>\<open>opts\<close> (method, headers, body) shapes the request and nothing else, and is left out.
\<close>

definition sfRawApi :: "string option \<Rightarrow> string \<Rightarrow> world \<Rightarrow> (exn + response) \<times> world" where
  "sfRawApi orgAlias fullPath w =
     (case getOrg (DEFAULT_ORG w) w orgAlias of
        Inl e \<Rightarrow> (Inl e, w)
      | Inr org \<Rightarrow>
          let doFetch = (\<lambda>token. fetch (ApiRequest (instanceUrl org) fullPath token))
          in case doFetch (accessToken org) w of
               (Inl e, w1) \<Rightarrow> (Inl e, w1)
             | (Inr res, w1) \<Rightarrow>
                 if status res = 401 \<and> truthy (refreshToken' org)
                 then case refreshToken org w1 of
                        (Inl e, w2) \<Rightarrow> (Inl e, w2)
                      | (Inr newToken, w2) \<Rightarrow> doFetch newToken w2
                 else (Inr res, w1))"

text \<open>
  \<^verbatim>\<open>
  async function sfApi(orgAlias, path, opts = {}) {
    const org = getOrg(orgAlias);
    const doFetch = (token) =>
      fetch(`${org.instanceUrl}/services/data/v${API_VERSION}${path}`, {...});
    let res = await doFetch(org.accessToken);
    if (res.status === 401 && org.refreshToken) {
      const newToken = await refreshToken(org);
      res = await doFetch(newToken);
    }
    if (res.status === 204) return { success: true };
    const data = await res.json();
    if (!res.ok) throw new Error(JSON.stringify(data, null, 2));
    return data;
  }
  \<close>
  \<open>stringify\<close> stands for \<^verbatim>\<open>JSON.stringify(_, null, 2)\<close>.
\<close>

definition sfApi ::
  "(json \<Rightarrow> string) \<Rightarrow> string option \<Rightarrow> string \<Rightarrow> world \<Rightarrow> (exn + json) \<times> world" where
  "sfApi stringify orgAlias path w =
     (case getOrg (DEFAULT_ORG w) w orgAlias of
        Inl e \<Rightarrow> (Inl e, w)
      | Inr org \<Rightarrow>
          let doFetch = (\<lambda>token. fetch (ApiRequest (instanceUrl org)
                                          (''/services/data/v'' @ API_VERSION @ path) token))
          in case doFetch (accessToken org) w of
               (Inl e, w1) \<Rightarrow> (Inl e, w1)
             | (Inr res, w1) \<Rightarrow>
                 (case (if status res = 401 \<and> truthy (refreshToken' org)
                        then case refreshToken org w1 of
                               (Inl e, w2) \<Rightarrow> (Inl e, w2)
                             | (Inr newToken, w2) \<Rightarrow> doFetch newToken w2
                        else (Inr res, w1)) of
                    (Inl e, w3) \<Rightarrow> (Inl e, w3)
                  | (Inr res, w3) \<Rightarrow>
                      if status res = 204 then (Inr (JObj [(''success'', JBool True)]), w3)
                      else case json_body res of
                             Inl e \<Rightarrow> (Inl e, w3)
                           | Inr data \<Rightarrow>
                               if \<not> ok res then (Inl (Error (stringify data)), w3)
                               else (Inr data, w3)))"

section \<open>The REST server: what a call sends\<close>

text \<open>
  \<open>made w w'\<close> are the \<^verbatim>\<open>fetch\<close> calls made between the worlds \<open>w\<close> and \<open>w'\<close>;
  \<open>first_status w\<close> is the HTTP status of the first answer the network will give, if
  that answer is a response.
\<close>

definition made :: "world \<Rightarrow> world \<Rightarrow> request list" where
  "made w w' = drop (length (sent w)) (sent w')"



definition first_status :: "world \<Rightarrow> nat option" where
  "first_status w = (case replies w of Inr res # rest \<Rightarrow> Some (status res) | _ \<Rightarrow> None)"

text \<open>
  Some concrete worlds: a store with the orgs \<^verbatim>\<open>prod\<close> and \<^verbatim>\<open>dev\<close>, and four answers of
  the network.
\<close>

definition stored_org :: org where
  "stored_org = \<lparr>accessToken = Some (JStr ''old''), refreshToken' = Some (JStr ''refresh''),
     instanceUrl = Some (JStr ''https://na1.example''),
     loginUrl = Some (JStr ''https://login.salesforce.com''),
     username = Some (JStr ''ada@example.com''), orgId = Some (JStr ''00D''),
     displayName = Some (JStr ''Ada''), authenticatedAt = Some (JStr ''2025-01-01'')\<rparr>"

definition world_of :: "(exn + response) list \<Rightarrow> world" where
  "world_of rs = \<lparr>creds = Some [(''prod'', stored_org), (''dev'', no_fields)], writes = 0,
     DEFAULT_ORG = None, replies = rs, sent = []\<rparr>"

definition expired :: "exn + response" where
  "expired = Inr \<lparr>status = 401, json_body = Inr (JArr [])\<rparr>"

definition new_token :: "exn + response" where
  "new_token = Inr \<lparr>status = 200,
     json_body = Inr (JObj [(''access_token'', JStr ''new''), (''instance_url'', JStr [])])\<rparr>"

definition refused :: "exn + response" where
  "refused = Inr \<lparr>status = 400, json_body = Inr (JObj [(''error'', JStr ''invalid_grant'')])\<rparr>"

definition limits :: "exn + response" where
  "limits = Inr \<lparr>status = 200, json_body = Inr (JObj [(''DailyApiRequests'', JNum 15000)])\<rparr>"

definition not_json :: "exn + response" where
  "not_json = Inr \<lparr>status = 200, json_body = Inl (SyntaxError ''Unexpected end of JSON input'')\<rparr>"

section \<open>The REST server: \<^verbatim>\<open>oauthLogin\<close>\<close>

text \<open>
  \<^verbatim>\<open>oauthLogin(alias, loginUrl)\<close> returns a promise and registers three callbacks: the
  request handler of the local HTTP server, the server's \<^verbatim>\<open>error\<close> handler and a
  timer of 120 seconds. Node runs callbacks one at a time, so a login is a state and a
  sequence of events. The request handler is \<^verbatim>\<open>async\<close>: it runs up to its first
  \<^verbatim>\<open>await\<close> (the token exchange), and other callbacks may run before it goes on.
  Between that first \<^verbatim>\<open>await\<close> and the last one (the identity request) the handler
  neither reads nor writes \<^verbatim>\<open>settled\<close> or the credential file, so the exchange is one
  event, \<open>Exchanged\<close>, carrying what lines 175 to 212 give: a thrown error, or the
  record \<^verbatim>\<open>orgData\<close>. \<^verbatim>\<open>loginUrl\<close> only shapes the requests of that exchange and is
  left out.

  The handler begins
  \<^verbatim>\<open>
  if (settled) return;
  const url = new URL(req.url, `http://localhost:${CALLBACK_PORT}`);
  if (url.pathname !== "/OauthRedirect") { res.writeHead(404); res.end(); return; }
  const code = url.searchParams.get("code");
  const error = url.searchParams.get("error");
  if (error || !code) { settled = true; ...; httpServer.close(); reject(...); return; }
  try { ... } catch (err) { settled = true; ...; httpServer.close(); reject(err); }
  \<close>
  \<^verbatim>\<open>new URL\<close> throws a TypeError when the request target does not parse against the
  base (the target \<^verbatim>\<open>//\<close> has an empty host). That line stands before the \<^verbatim>\<open>try\<close>,
  so the throw rejects the promise of the \<^verbatim>\<open>async\<close> handler, which nothing handles:
  neither \<^verbatim>\<open>resolve\<close> nor \<^verbatim>\<open>reject\<close> is called, and Node ends the process on the
  unhandled rejection. A \<open>Callback\<close> event carries what \<^verbatim>\<open>new URL\<close> gives for the
  request: the thrown error, or the path with the query parameters \<^verbatim>\<open>code\<close> and
  \<^verbatim>\<open>error\<close> (\<open>None\<close>: the parameter is missing).
\<close>

datatype outcome = Resolved org | Rejected exn

datatype event =
    Callback "exn + string \<times> string option \<times> string option"
  | Exchanged "exn + org"
  | ServerError string
  | Timeout

text \<open>
  The state: the credential file; the flag \<^verbatim>\<open>settled\<close>; the promise (\<open>None\<close> while
  pending); every call of \<^verbatim>\<open>resolve\<close> or \<^verbatim>\<open>reject\<close> so far, each with the value
  \<^verbatim>\<open>settled\<close> had when the branch that makes the call was entered; the number of
  handlers waiting for their token exchange; whether the server still listens; whether
  the process has ended on an unhandled rejection.
\<close>

record login = files +
  settled :: bool
  promise :: "outcome option"
  invocations :: "(bool \<times> outcome) list"
  awaiting :: nat
  listening :: bool
  crashed :: bool

text \<open>
  \<^verbatim>\<open>settled = true; ...; resolve(x)\<close> or \<^verbatim>\<open>reject(x)\<close>. A promise settles once:
  \<^verbatim>\<open>resolve\<close> and \<^verbatim>\<open>reject\<close> do nothing to a promise that is settled.
\<close>

definition invoke :: "outcome \<Rightarrow> login \<Rightarrow> login" where
  "invoke out s =
     s\<lparr>settled := True,
       promise := (case promise s of None \<Rightarrow> Some out | Some p \<Rightarrow> Some p),
       invocations := invocations s @ [(settled s, out)]\<rparr>"

text \<open>
  Lines 214 to 216:
  \<^verbatim>\<open>const orgs = loadOrgs(); orgs[alias] = orgData; saveOrgs(orgs);\<close>
\<close>

definition save_login :: "string \<Rightarrow> org \<Rightarrow> 'a files_scheme \<Rightarrow> 'a files_scheme" where
  "save_login alias orgData w = saveOrgs (set_prop (loadOrgs w) alias orgData) w"

text \<open>
  One callback. \<open>Callback\<close> runs the request handler up to the token exchange (lines
  153 to 172). \<open>Exchanged r\<close> resumes one waiting handler (lines 190 to 240).
  \<open>ServerError\<close> and \<open>Timeout\<close> are lines 243 to 252 and 264 to 270. Once the process
  has ended, no callback runs.
\<close>

fun step :: "string \<Rightarrow> event \<Rightarrow> login \<Rightarrow> login" where
  "step alias (Callback url) s =
     (if crashed s then s
      else if settled s then s
      else case url of
             Inl err \<Rightarrow> s\<lparr>crashed := True\<rparr>
           | Inr (pathname, code, error) \<Rightarrow>
               if pathname \<noteq> ''/OauthRedirect'' then s
               else if truthy_str error \<or> \<not> truthy_str code
               then invoke (Rejected (Error (if truthy_str error then the error
                                             else ''No authorization code received'')))
                      (s\<lparr>listening := False\<rparr>)
               else s\<lparr>awaiting := awaiting s + 1\<rparr>)"
| "step alias (Exchanged r) s =
     (if crashed s then s
      else if awaiting s = 0 then s
      else case r of
             Inr orgData \<Rightarrow>
               invoke (Resolved orgData)
                 ((save_login alias orgData s)\<lparr>awaiting := awaiting s - 1, listening := False\<rparr>)
           | Inl err \<Rightarrow>
               invoke (Rejected err) (s\<lparr>awaiting := awaiting s - 1, listening := False\<rparr>))"
| "step alias (ServerError msg) s =
     (if crashed s then s
      else if \<not> settled s
      then invoke (Rejected (Error (''Could not start login server on port 1717: '' @ msg
                                    @ ''. Is another sf login in progress?''))) s
      else s)"
| "step alias Timeout s =
     (if crashed s then s
      else if \<not> settled s
      then invoke (Rejected (Error ''Login timed out after 2 minutes. Try again.''))
             (s\<lparr>listening := False\<rparr>)
      else s)"

definition start :: "'a files_scheme \<Rightarrow> login" where
  "start w = \<lparr>creds = creds w, writes = writes w, settled = False, promise = None,
     invocations = [], awaiting = 0, listening = True, crashed = False\<rparr>"

definition oauthLogin :: "string \<Rightarrow> event list \<Rightarrow> 'a files_scheme \<Rightarrow> login" where
  "oauthLogin alias events w = fold (step alias) events (start w)"

text \<open>The calls of \<^verbatim>\<open>resolve\<close> or \<^verbatim>\<open>reject\<close> made while \<^verbatim>\<open>settled\<close> was false.\<close>

definition unsettled_calls :: "login \<Rightarrow> outcome list" where
  "unsettled_calls s = map snd (filter (\<lambda>(flag, out). \<not> flag) (invocations s))"

text \<open>
  The invariant of a login: \<^verbatim>\<open>settled\<close> is false and the promise is pending until the
  first call of \<^verbatim>\<open>resolve\<close> or \<^verbatim>\<open>reject\<close>; that call was made with \<^verbatim>\<open>settled\<close> false
  and its argument is the value of the promise; every later call was made with
  \<^verbatim>\<open>settled\<close> true.
\<close>

definition settles_once :: "login \<Rightarrow> bool" where
  "settles_once s \<longleftrightarrow>
     (case invocations s of
        [] \<Rightarrow> \<not> settled s \<and> promise s = None
      | (flag, out) # rest \<Rightarrow>
          settled s \<and> \<not> flag \<and> promise s = Some out \<and> list_all fst rest)"

text \<open>
  Two runs. In \<open>late_exchange\<close> the token exchange ends after the timer has fired: the
  promise stays rejected, the late handler still calls \<^verbatim>\<open>resolve\<close> and still saves the
  credentials. In \<open>unparsed_target\<close> a request whose target does not parse (such as
  \<^verbatim>\<open>GET // HTTP/1.1\<close>) arrives before the timer would fire.
\<close>

definition late_exchange :: "event list" where
  "late_exchange =
     [Callback (Inr (''/favicon.ico'', None, None)),
      Callback (Inr (''/OauthRedirect'', Some ''c0de'', None)),
      Timeout, Exchanged (Inr stored_org), ServerError ''EADDRINUSE'']"

definition unparsed_target :: "event list" where
  "unparsed_target = [Callback (Inl (TypeError ''Invalid URL'')), Timeout]"

section \<open>Properties. The CLI server: \<^verbatim>\<open>runSf\<close>\<close>

lemma runSf_Exited: "exec args = Exited out err \<Longrightarrow> \<exists>s. runSf exec args = Inr s"
  by (simp add: runSf_def)

text \<open>
  Claim C4. When the child process fails and left output, \<open>runSf\<close> returns that output
  as it is, as a normal result: its stdout when that is non-empty, else its stderr.
  It throws exactly when the process failed and left neither.
\<close>

theorem runSf_surfaces_output:
  "(exec args = Failed msg (Some out) err \<and> out \<noteq> [] \<longrightarrow> runSf exec args = Inr out)
   \<and> (exec args = Failed msg out' (Some err') \<and> \<not> truthy_str out' \<and> err' \<noteq> []
        \<longrightarrow> runSf exec args = Inr err')
   \<and> ((\<exists>e. runSf exec args = Inl e)
        \<longleftrightarrow> (\<exists>m so se. exec args = Failed m so se \<and> \<not> truthy_str so \<and> \<not> truthy_str se))"
  by (auto simp: runSf_def split: exec_result.splits)

theorem runSf_surfaces_output_witness:
  "runSf (\<lambda>_. Failed ''exit 1'' (Some ''status 1'') (Some ''warn'')) [''org'', ''list'']
     = Inr ''status 1''
   \<and> runSf (\<lambda>_. Failed ''exit 1'' (Some []) (Some ''no such command'')) [''org'']
     = Inr ''no such command''
   \<and> (\<exists>e. runSf (\<lambda>_. Failed ''spawn sf ENOENT'' None None) [''org''] = Inl e)"
  using
    runSf_surfaces_output
      [of "\<lambda>_. Failed ''exit 1'' (Some ''status 1'') (Some ''warn'')" "[''org'', ''list'']"
          "''exit 1''" "''status 1''" "Some ''warn''" None "''x''"]
    runSf_surfaces_output
      [of "\<lambda>_. Failed ''exit 1'' (Some []) (Some ''no such command'')" "[''org'']"
          "''exit 1''" "''x''" None "Some []" "''no such command''"]
    runSf_surfaces_output
      [of "\<lambda>_. Failed ''spawn sf ENOENT'' None None" "[''org'']"
          "''exit 1''" "''x''" None None "''x''"]
  by simp

section \<open>Properties. The CLI server: \<^verbatim>\<open>sf_run_command\<close>\<close>

lemma split_ws_nonempty: "split_ws cur cs \<noteq> []"
  by (induction cur cs rule: split_ws.induct) auto



section \<open>Properties. The REST server: JavaScript objects used as dictionaries\<close>

lemma keys_insert_index:
  "set (map fst (insert_index key v obj)) = insert key (set (map fst obj))"
proof (induction obj)
  case Nil
  then show ?case by simp
next
  case (Cons a obj)
  obtain k w where a: "a = (k, w)" by (cases a)
  show ?case using Cons.IH unfolding a
    by (cases "is_array_index k \<and> index_value k < index_value key") auto
qed

lemma distinct_insert_index:
  "distinct (map fst obj) \<Longrightarrow> key \<notin> set (map fst obj) \<Longrightarrow>
   distinct (map fst (insert_index key v obj))"
proof (induction obj)
  case Nil
  then show ?case by simp
next
  case (Cons a obj)
  obtain k w where a: "a = (k, w)" by (cases a)
  from Cons have "distinct (map fst (insert_index key v obj))" by simp
  moreover have "k \<notin> set (map fst (insert_index key v obj))"
    using Cons.prems a by (simp only: keys_insert_index) auto
  ultimately show ?case using Cons.prems a by auto
qed

lemma keys_replace:
  "map fst (map (\<lambda>(k, w). if k = key then (k, v) else (k, w)) obj) = map fst obj"
  by (induction obj) auto

lemma distinct_set_prop:
  "distinct (map fst obj) \<Longrightarrow> distinct (map fst (set_prop obj key v))"
  using keys_replace [of key v obj]
  by (auto simp: set_prop_def distinct_insert_index simp del: map_map)

lemma distinct_delete_prop:
  "distinct (map fst obj) \<Longrightarrow> distinct (map fst (delete_prop obj key))"
  by (simp add: delete_prop_def distinct_map_filter)

section \<open>Properties. The REST server: the credential store\<close>

lemma get_prop_Own: "map_of obj key = Some v \<Longrightarrow> get_prop obj key = Own v"
  by (simp add: get_prop_def)

lemma get_prop_Undefined:
  "map_of obj key = None \<Longrightarrow> key \<notin> set Object_prototype_names \<Longrightarrow> get_prop obj key = Undefined"
  by (simp add: get_prop_def)

lemma get_prop_Inherited:
  "map_of obj key = None \<Longrightarrow> key \<in> set Object_prototype_names \<Longrightarrow> get_prop obj key = Inherited"
  by (simp add: get_prop_def)

lemma get_prop_ordinary:
  "key \<notin> set Object_prototype_names \<Longrightarrow>
   truthy_prop (get_prop obj key) \<longleftrightarrow> map_of obj key \<noteq> None"
  by (cases "map_of obj key") (simp_all add: get_prop_def)

lemma get_prop_first: "get_prop ((k, r) # rest) k = Own r"
  by (simp add: get_prop_def)

lemma getOrg_cases:
  "getOrg D w alias =
     (if truthy_str (requested_key D alias)
         \<and> truthy_prop (get_prop (loadOrgs w) (the (requested_key D alias)))
      then Inr (spread (the (requested_key D alias))
                  (get_prop (loadOrgs w) (the (requested_key D alias))))
      else case loadOrgs w of
             [] \<Rightarrow> Inl (Error ''No Salesforce orgs connected. Use the sf_org_login tool to authenticate.'')
           | (k, r) # rest \<Rightarrow> Inr (spread k (Own r)))"
  by (cases "loadOrgs w")
     (auto simp: getOrg_def requested_key_def Object_keys_def Let_def get_prop_first)

lemma getOrg_throws_iff:
  assumes "\<not> truthy_str (requested_key D alias)
           \<or> the (requested_key D alias) \<notin> set Object_prototype_names"
  shows "(\<exists>e. getOrg D w alias = Inl e) \<longleftrightarrow> loadOrgs w = []"
proof (cases "loadOrgs w")
  case Nil
  have "\<not> (truthy_str (requested_key D alias)
            \<and> truthy_prop (get_prop [] (the (requested_key D alias))))"
    using assms by (auto simp: get_prop_def)
  then show ?thesis using Nil by (simp add: getOrg_cases)
next
  case (Cons a rest)
  then show ?thesis by (cases a) (simp add: getOrg_cases)
qed

lemma getOrg_falls_back:
  assumes "\<not> truthy_str (requested_key D alias)
           \<or> (the (requested_key D alias) \<notin> set Object_prototype_names
               \<and> map_of (loadOrgs w) (the (requested_key D alias)) = None)"
    and "loadOrgs w = (k, r) # rest"
  shows "getOrg D w alias = Inr (spread k (Own r))"
proof -
  have "\<not> (truthy_str (requested_key D alias)
            \<and> truthy_prop (get_prop (loadOrgs w) (the (requested_key D alias))))"
    using assms(1) by (auto simp: get_prop_ordinary)
  then show ?thesis using assms(2) by (auto simp: getOrg_cases)
qed

text \<open>
  Claim C8 (the code departs from it). With an ordinary key \<open>getOrg\<close> throws exactly
  when the store is empty, and falls back to the first stored org when the key matches
  no stored alias (\<open>getOrg_throws_iff\<close>, \<open>getOrg_falls_back\<close>). With a key that
  \<^verbatim>\<open>Object.prototype\<close> defines, \<^verbatim>\<open>orgs[key]\<close> is truthy although no org is stored under
  it: on an empty store \<open>getOrg\<close> does not throw, and on a store that holds \<^verbatim>\<open>prod\<close>
  it does not fall back to \<^verbatim>\<open>prod\<close>. Both times it returns a record with only
  \<^verbatim>\<open>_alias\<close> set.
\<close>

theorem getOrg_inherited_key:
  "getOrg None \<lparr>creds = None, writes = 0\<rparr> (Some ''toString'')
     = Inr \<lparr>accessToken = None, refreshToken' = None, instanceUrl = None,
            loginUrl = None, username = None, orgId = None, displayName = None,
            authenticatedAt = None, alias' = ''toString''\<rparr>
   \<and> loadOrgs \<lparr>creds = None, writes = 0\<rparr> = []
   \<and> alias' (projr (getOrg None \<lparr>creds = Some [(''prod'', r)], writes = 0\<rparr> (Some ''constructor'')))
     = ''constructor''"
  by (simp add: getOrg_def loadOrgs_def get_prop_def Object_prototype_names_def spread_def
      no_fields_def org.defs got_org.defs)

lemma sf_org_logout_present:
  assumes "map_of (loadOrgs w) alias = Some r"
  shows "sf_org_logout alias w =
           (JObj [(''success'', JBool True), (''removed'', JStr alias)],
            w\<lparr>creds := Some (delete_prop (loadOrgs w) alias), writes := writes w + 1\<rparr>)"
  using assms by (simp add: sf_org_logout_def get_prop_def saveOrgs_def Let_def)

lemma sf_org_logout_absent:
  assumes "map_of (loadOrgs w) alias = None" and "alias \<notin> set Object_prototype_names"
  shows "sf_org_logout alias w =
           (JObj [(''error'', JStr (''Org '' @ quoted alias @ '' not found''))], w)"
  using assms by (simp add: sf_org_logout_def get_prop_def Let_def)

text \<open>
  Claim C6 (the code departs from it). For an alias that is stored, the store loses
  that one key and the answer reports success (\<open>sf_org_logout_present\<close>); for an
  ordinary alias that is not stored, nothing is written and the answer is the error
  object (\<open>sf_org_logout_absent\<close>). For an alias that \<^verbatim>\<open>Object.prototype\<close> defines and
  the store does not hold, \<^verbatim>\<open>!orgs[alias]\<close> is false: the file is written again and
  the answer reports success.
\<close>

theorem sf_org_logout_inherited_key:
  "sf_org_logout ''toString'' \<lparr>creds = None, writes = n\<rparr>
     = (JObj [(''success'', JBool True), (''removed'', JStr ''toString'')],
        \<lparr>creds = Some [], writes = n + 1\<rparr>)
   \<and> sf_org_logout ''toString'' \<lparr>creds = Some [(''prod'', r)], writes = n\<rparr>
     = (JObj [(''success'', JBool True), (''removed'', JStr ''toString'')],
        \<lparr>creds = Some [(''prod'', r)], writes = n + 1\<rparr>)"
  by (simp add: sf_org_logout_def loadOrgs_def get_prop_def Object_prototype_names_def
      saveOrgs_def delete_prop_def)

section \<open>Properties. Both servers: the \<^verbatim>\<open>CallToolRequestSchema\<close> handler\<close>

lemma call_tool_throws:
  "map_of handlers name = Some h \<Longrightarrow> h args = Inl err \<Longrightarrow>
   call_tool engine_msg handlers name args
     = \<lparr>content_text = Str (''Error: '' @ message err), isError = True\<rparr>"
  by (simp add: call_tool_def get_prop_def)

lemma call_tool_returns:
  "map_of handlers name = Some h \<Longrightarrow> h args = Inr result \<Longrightarrow>
   call_tool engine_msg handlers name args = \<lparr>content_text = Str result, isError = False\<rparr>"
  by (simp add: call_tool_def get_prop_def)

lemma call_tool_unknown:
  "map_of handlers name = None \<Longrightarrow> name \<notin> set Object_prototype_names \<Longrightarrow>
   call_tool engine_msg handlers name args
     = \<lparr>content_text = Str (''Unknown tool: '' @ name), isError = True\<rparr>"
  by (simp add: call_tool_def get_prop_def)

lemma toString_no_tool:
  "map_of (TOOL_HANDLERS TOOL_NAMES_rest impl) ''toString'' = None"
  "map_of (TOOL_HANDLERS TOOL_NAMES_cli impl') ''toString'' = None"
  by (simp_all add: TOOL_HANDLERS_def TOOL_NAMES_rest_def TOOL_NAMES_cli_def)

text \<open>
  Claim C3 (the code departs from it). A handler that throws gives an error-flagged
  answer with the message, a handler that returns gives an answer without the flag,
  and an ordinary name with no handler gives the error-flagged "Unknown tool" answer
  (\<open>call_tool_throws\<close>, \<open>call_tool_returns\<close>, \<open>call_tool_unknown\<close>). The name
  \<^verbatim>\<open>toString\<close> has no handler in either server, yet \<^verbatim>\<open>TOOL_HANDLERS[name]\<close> finds the
  function of \<^verbatim>\<open>Object.prototype\<close>, the call returns, and the answer carries no error
  flag.
\<close>

theorem call_tool_inherited_name:
  "call_tool engine_msg (TOOL_HANDLERS TOOL_NAMES_rest impl) ''toString'' args
     = \<lparr>content_text = Str ''[object Undefined]'', isError = False\<rparr>
   \<and> call_tool engine_msg (TOOL_HANDLERS TOOL_NAMES_cli impl') ''toString'' args
     = \<lparr>content_text = Str ''[object Undefined]'', isError = False\<rparr>
   \<and> map_of (TOOL_HANDLERS TOOL_NAMES_rest impl) ''toString'' = None
   \<and> map_of (TOOL_HANDLERS TOOL_NAMES_cli impl') ''toString'' = None"
  by (simp add: call_tool_def get_prop_def toString_no_tool Object_prototype_names_def
      Object_prototype_call_def)

section \<open>Properties. The REST server: HTTP calls and the token refresh\<close>

text \<open>The result of \<open>sfApi\<close> for the response \<open>res\<close> it ends with (its last four lines).\<close>

lemma sfApi_sfRawApi:
  "sfApi stringify orgAlias path w =
     (case sfRawApi orgAlias (''/services/data/v'' @ API_VERSION @ path) w of
        (Inl e, w') \<Rightarrow> (Inl e, w')
      | (Inr res, w') \<Rightarrow>
          (if status res = 204 then Inr (JObj [(''success'', JBool True)])
           else case json_body res of
                  Inl e \<Rightarrow> Inl e
                | Inr data \<Rightarrow> if ok res then Inr data else Inl (Error (stringify data)), w'))"
  by (simp add: sfApi_def sfRawApi_def Let_def split: sum.splits prod.splits)

section \<open>Properties. The REST server: what a call sends\<close>

lemma loadOrgs_fetch [simp]: "loadOrgs (snd (fetch req w)) = loadOrgs w"
  by (simp add: fetch_def loadOrgs_def split: list.splits)


lemma sent_saveOrgs [simp]: "sent (saveOrgs orgs w) = sent w"
  by (simp add: saveOrgs_def)

lemma loadOrgs_saveOrgs [simp]: "loadOrgs (saveOrgs orgs w) = orgs"
  by (simp add: saveOrgs_def loadOrgs_def)


lemma made_append [simp]: "made w (w'\<lparr>sent := sent w @ xs\<rparr>) = xs"
  by (simp add: made_def)



lemma no_org_no_fetch:
  "getOrg (DEFAULT_ORG w) w orgAlias = Inl e \<Longrightarrow> sfRawApi orgAlias fullPath w = (Inl e, w)"
  by (simp add: sfRawApi_def)





lemmas example_defs = stored_org_def world_of_def expired_def new_token_def refused_def
  limits_def getOrg_def loadOrgs_def get_prop_def spread_def org.defs got_org.defs
  fetch_def refreshToken_def sfRawApi_def sfApi_def made_def first_status_def ok_def
  get_field_def update_own_def saveOrgs_def API_VERSION_def Object_keys_def no_fields_def




lemma map_of_update_own:
  "map_of (update_own obj key f) k
     = (if k = key then map_option f (map_of obj key) else map_of obj k)"
  by (induction obj) (auto simp: update_own_def)

lemma keys_update_own: "map fst (update_own obj key f) = map fst obj"
  by (induction obj) (auto simp: update_own_def)

lemma update_own_twice:
  "update_own (update_own obj key f) key g = update_own obj key (\<lambda>r. g (f r))"
  by (induction obj) (auto simp: update_own_def)

lemma refreshToken_saved:
  assumes "refreshToken org w = (Inr token, w')"
    and "map_of (loadOrgs w) (alias' org) = Some r"
  shows "\<exists>res rest data url. replies w = Inr res # rest \<and> json_body res = Inr data
      \<and> get_field data ''access_token'' = Inr token
      \<and> get_field data ''instance_url'' = Inr url
      \<and> loadOrgs w' = update_own (loadOrgs w) (alias' org)
           (\<lambda>r. r\<lparr>accessToken := token,
                 instanceUrl := (if truthy url then url else instanceUrl r)\<rparr>)"
proof -
  let ?req = "TokenRequest (loginUrl org) (refreshToken' org)"
  obtain x w1 where f: "fetch ?req w = (x, w1)" by (cases "fetch ?req w")
  have l: "loadOrgs w1 = loadOrgs w" using loadOrgs_fetch [of ?req w] f by simp
  have p: "truthy_prop (get_prop (loadOrgs w) (alias' org))"
    using assms(2) by (simp add: get_prop_def)
  from assms(1) obtain res where x: "x = Inr res"
    by (cases x) (auto simp: refreshToken_def f)
  have rep: "\<exists>rest. replies w = Inr res # rest"
    using f x by (auto simp: fetch_def split: list.splits)
  from assms(1) obtain data where d: "json_body res = Inr data" and okr: "ok res"
    by (cases "json_body res") (auto simp: refreshToken_def f x split: if_splits)
  from assms(1) obtain url where
    t: "get_field data ''access_token'' = Inr token"
    and u: "get_field data ''instance_url'' = Inr url"
    and w': "w' = saveOrgs (if truthy url
                 then update_own (update_own (loadOrgs w) (alias' org) (\<lambda>r. r\<lparr>accessToken := token\<rparr>))
                        (alias' org) (\<lambda>r. r\<lparr>instanceUrl := url\<rparr>)
                 else update_own (loadOrgs w) (alias' org) (\<lambda>r. r\<lparr>accessToken := token\<rparr>)) w1"
    by (auto simp: refreshToken_def f x d okr l p Let_def split: sum.splits)
  have "loadOrgs w' = update_own (loadOrgs w) (alias' org)
           (\<lambda>r. r\<lparr>accessToken := token,
                 instanceUrl := (if truthy url then url else instanceUrl r)\<rparr>)"
    by (cases "truthy url") (simp_all add: w' update_own_twice)
  then show ?thesis using rep d t u by blast
qed

text \<open>
  Claim C5. When \<open>refreshToken\<close> succeeds for an org whose alias is in the store, the
  record under that alias gets the \<^verbatim>\<open>access_token\<close> of the response as its
  \<open>accessToken\<close>, and the \<^verbatim>\<open>instance_url\<close> of the response as its \<open>instanceUrl\<close> when
  that is truthy; its other fields, the records of all other aliases and the order of
  the keys stay as they were.
\<close>

theorem refreshToken_frame:
  assumes "refreshToken org w = (Inr token, w')"
    and "map_of (loadOrgs w) (alias' org) = Some r"
  shows "\<exists>res rest data url. replies w = Inr res # rest \<and> json_body res = Inr data
      \<and> get_field data ''access_token'' = Inr token
      \<and> get_field data ''instance_url'' = Inr url
      \<and> map_of (loadOrgs w') (alias' org)
           = Some (r\<lparr>accessToken := token,
                     instanceUrl := (if truthy url then url else instanceUrl r)\<rparr>)
      \<and> (\<forall>k. k \<noteq> alias' org \<longrightarrow> map_of (loadOrgs w') k = map_of (loadOrgs w) k)
      \<and> Object_keys (loadOrgs w') = Object_keys (loadOrgs w)"
proof -
  from refreshToken_saved [OF assms] obtain res rest data url where
    a: "replies w = Inr res # rest" "json_body res = Inr data"
       "get_field data ''access_token'' = Inr token"
       "get_field data ''instance_url'' = Inr url"
    and l: "loadOrgs w' = update_own (loadOrgs w) (alias' org)
           (\<lambda>r. r\<lparr>accessToken := token,
                 instanceUrl := (if truthy url then url else instanceUrl r)\<rparr>)"
    by blast
  have "map_of (loadOrgs w') (alias' org)
           = Some (r\<lparr>accessToken := token,
                     instanceUrl := (if truthy url then url else instanceUrl r)\<rparr>)"
    by (simp add: l map_of_update_own assms(2))
  moreover have "\<forall>k. k \<noteq> alias' org \<longrightarrow> map_of (loadOrgs w') k = map_of (loadOrgs w) k"
    by (simp add: l map_of_update_own)
  moreover have "Object_keys (loadOrgs w') = Object_keys (loadOrgs w)"
    by (simp add: l Object_keys_def keys_update_own)
  ultimately show ?thesis using a by blast
qed

theorem refreshToken_frame_witness:
  "\<exists>w'. refreshToken (spread ''prod'' (Own stored_org)) (world_of [new_token]) = (Inr (Some (JStr ''new'')), w')
     \<and> loadOrgs w' = [(''prod'', stored_org\<lparr>accessToken := Some (JStr ''new'')\<rparr>), (''dev'', no_fields)]"
proof -
  obtain x w' where r: "refreshToken (spread ''prod'' (Own stored_org)) (world_of [new_token]) = (x, w')"
    by (cases "refreshToken (spread ''prod'' (Own stored_org)) (world_of [new_token])")
  have x: "x = Inr (Some (JStr ''new''))" using r by (simp add: example_defs)
  have m: "map_of (loadOrgs (world_of [new_token])) (alias' (spread ''prod'' (Own stored_org))) = Some stored_org"
    by (simp add: example_defs)
  have "loadOrgs w' = [(''prod'', stored_org\<lparr>accessToken := Some (JStr ''new'')\<rparr>), (''dev'', no_fields)]"
    using refreshToken_frame [OF r [unfolded x] m] r by (auto simp: example_defs)
  then show ?thesis using r x by blast
qed

lemma sfApi_no_response:
  "sfRawApi orgAlias (''/services/data/v'' @ API_VERSION @ path) w = (Inl e, w') \<Longrightarrow>
   sfApi stringify orgAlias path w = (Inl e, w')"
  by (simp add: sfApi_sfRawApi)

text \<open>
  Claim C9, as amended. Let \<open>res\<close> be the response \<open>sfApi\<close> ends with. Status 204 gives
  \<^verbatim>\<open>{ success: true }\<close> without reading the body. Otherwise the body is parsed: if it
  is not JSON, \<open>sfApi\<close> throws the parse error, whatever the status; if it is, an ok
  status gives the parsed body and any other status throws an error whose message is
  the serialised body. So \<open>sfApi\<close> throws exactly when the status is not 204 and the
  response is not ok or its body is not JSON.
\<close>

theorem sfApi_result:
  assumes "sfRawApi orgAlias (''/services/data/v'' @ API_VERSION @ path) w = (Inr res, w')"
  shows "sfApi stringify orgAlias path w =
           (if status res = 204 then Inr (JObj [(''success'', JBool True)])
            else case json_body res of
                   Inl e \<Rightarrow> Inl e
                 | Inr data \<Rightarrow> if ok res then Inr data else Inl (Error (stringify data)),
            w')
    \<and> ((\<exists>e. fst (sfApi stringify orgAlias path w) = Inl e)
        \<longleftrightarrow> status res \<noteq> 204 \<and> (\<not> ok res \<or> (\<exists>e. json_body res = Inl e)))"
  using assms by (cases "json_body res") (simp_all add: sfApi_sfRawApi)

text \<open>
  Claim C9 as stated fails: a response with status 200 whose body is not JSON is ok
  and is not a 204, and \<open>sfApi\<close> throws.
\<close>

theorem sfApi_throws_on_ok_response:
  "fst (sfRawApi (Some ''prod'') ''/services/data/v62.0/limits'' (world_of [not_json])) = not_json
   \<and> ok (projr not_json) \<and> status (projr not_json) \<noteq> 204
   \<and> fst (sfApi (\<lambda>data. []) (Some ''prod'') ''/limits'' (world_of [not_json]))
       = Inl (SyntaxError ''Unexpected end of JSON input'')"
  by (simp add: not_json_def example_defs)

theorem sfApi_result_witness:
  "fst (sfApi (\<lambda>data. ''{}'') (Some ''prod'') ''/limits'' (world_of [limits]))
     = Inr (JObj [(''DailyApiRequests'', JNum 15000)])
   \<and> fst (sfApi (\<lambda>data. ''{}'') (Some ''prod'') ''/limits'' (world_of [refused]))
     = Inl (Error ''{}'')"
proof -
  have a: "sfRawApi (Some ''prod'') (''/services/data/v'' @ API_VERSION @ ''/limits'') (world_of [limits])
     = (Inr \<lparr>status = 200, json_body = Inr (JObj [(''DailyApiRequests'', JNum 15000)])\<rparr>,
        (world_of [])\<lparr>sent := [ApiRequest (Some (JStr ''https://na1.example''))
           ''/services/data/v62.0/limits'' (Some (JStr ''old''))]\<rparr>)"
    by (simp add: example_defs)
  have b: "sfRawApi (Some ''prod'') (''/services/data/v'' @ API_VERSION @ ''/limits'') (world_of [refused])
     = (Inr \<lparr>status = 400, json_body = Inr (JObj [(''error'', JStr ''invalid_grant'')])\<rparr>,
        (world_of [])\<lparr>sent := [ApiRequest (Some (JStr ''https://na1.example''))
           ''/services/data/v62.0/limits'' (Some (JStr ''old''))]\<rparr>)"
    by (simp add: example_defs)
  show ?thesis
    using sfApi_result [OF a, of "\<lambda>data. ''{}''"] sfApi_result [OF b, of "\<lambda>data. ''{}''"]
    by (simp add: ok_def)
qed

section \<open>Properties. The REST server: \<^verbatim>\<open>oauthLogin\<close>\<close>

lemma settles_once_invoke:
  "settles_once s \<Longrightarrow> settles_once (invoke out s)"
  by (cases "invocations s") (auto simp: settles_once_def invoke_def)

lemma settles_once_fields:
  "settles_once s \<Longrightarrow> settled s' = settled s \<Longrightarrow> promise s' = promise s \<Longrightarrow>
   invocations s' = invocations s \<Longrightarrow> settles_once s'"
  by (auto simp: settles_once_def split: list.splits)

lemma save_login_fields [simp]:
  "settled (save_login alias orgData s) = settled s"
  "promise (save_login alias orgData s) = promise s"
  "invocations (save_login alias orgData s) = invocations s"
  "awaiting (save_login alias orgData s) = awaiting s"
  "crashed (save_login alias orgData s) = crashed s"
  by (simp_all add: save_login_def saveOrgs_def)

lemma settles_once_step: "settles_once s \<Longrightarrow> settles_once (step alias e s)"
proof (cases e)
  case (Callback url)
  assume a: "settles_once s"
  have b: "settles_once (s\<lparr>listening := False\<rparr>)" "settles_once (s\<lparr>awaiting := awaiting s + 1\<rparr>)"
    "settles_once (s\<lparr>crashed := True\<rparr>)"
    by (rule settles_once_fields [OF a]; simp)+
  show ?thesis
  proof (cases url)
    case (Inl err)
    then show ?thesis using a b Callback by simp
  next
    case (Inr p)
    obtain pathname code error where p: "p = (pathname, code, error)" by (cases p)
    show ?thesis using a b Callback Inr p by (simp add: settles_once_invoke)
  qed
next
  case (Exchanged r)
  assume a: "settles_once s"
  have "settles_once (s\<lparr>awaiting := awaiting s - 1, listening := False\<rparr>)"
    by (rule settles_once_fields [OF a]) simp_all
  moreover have "\<And>orgData. settles_once ((save_login alias orgData s)\<lparr>awaiting := awaiting s - 1, listening := False\<rparr>)"
    by (rule settles_once_fields [OF a]) simp_all
  ultimately show ?thesis using a Exchanged by (cases r) (simp_all add: settles_once_invoke)
next
  case (ServerError msg)
  assume a: "settles_once s"
  then show ?thesis using ServerError by (simp add: settles_once_invoke)
next
  case Timeout
  assume a: "settles_once s"
  have "settles_once (s\<lparr>listening := False\<rparr>)" by (rule settles_once_fields [OF a]) simp_all
  then show ?thesis using a Timeout by (simp add: settles_once_invoke)
qed

lemma settles_once_fold: "settles_once s \<Longrightarrow> settles_once (fold (step alias) events s)"
  by (induction events arbitrary: s) (simp_all add: settles_once_step)

lemma settled_invoke [simp]: "settled (invoke out s)"
  by (simp add: invoke_def)

lemma crashed_invoke [simp]: "crashed (invoke out s) = crashed s"
  by (simp add: invoke_def)

lemma settled_step: "settled s \<Longrightarrow> settled (step alias e s)"
  by (cases e) (auto split: sum.splits)

lemma settled_fold: "settled s \<Longrightarrow> settled (fold (step alias) events s)"
  by (induction events arbitrary: s) (simp_all add: settled_step)

lemma crashed_step: "crashed s \<Longrightarrow> step alias e s = s"
  by (cases e) simp_all

lemma crashed_fold: "crashed s \<Longrightarrow> fold (step alias) events s = s"
  by (induction events arbitrary: s) (simp_all add: crashed_step)

lemma settled_Timeout:
  "Timeout \<in> set events \<Longrightarrow> \<not> crashed (fold (step alias) events s) \<Longrightarrow>
   settled (fold (step alias) events s)"
proof (induction events arbitrary: s)
  case Nil
  then show ?case by simp
next
  case (Cons e events)
  show ?case
  proof (cases "e = Timeout")
    case True
    have "\<not> crashed s" using Cons.prems(2) crashed_fold [of s _ "e # events"] by auto
    then have "settled (step alias Timeout s)" by simp
    then show ?thesis using True by (simp add: settled_fold)
  next
    case False
    then show ?thesis using Cons by simp
  qed
qed

lemma settles_once_start: "settles_once (start w)"
  by (simp add: start_def settles_once_def)

lemma promise_invoke: "promise s = Some out \<Longrightarrow> promise (invoke out' s) = Some out"
  by (simp add: invoke_def)

lemma promise_step: "promise s = Some out \<Longrightarrow> promise (step alias e s) = Some out"
  by (cases e) (auto simp: promise_invoke split: sum.splits)

lemma promise_fold: "promise s = Some out \<Longrightarrow> promise (fold (step alias) events s) = Some out"
  by (induction events arbitrary: s) (simp_all add: promise_step)

lemma no_unsettled_calls:
  "list_all fst rest \<Longrightarrow> filter (\<lambda>(flag, out). \<not> flag) rest = []"
  by (induction rest) auto

lemma settles_once_calls:
  "settles_once s \<Longrightarrow> settled s \<Longrightarrow> \<exists>out. unsettled_calls s = [out] \<and> promise s = Some out"
proof -
  assume a: "settles_once s" and b: "settled s"
  note f = no_unsettled_calls
  show ?thesis using a b
    by (cases "invocations s") (auto simp: settles_once_def unsettled_calls_def f)
qed

lemma settles_once_at_most:
  "settles_once s \<Longrightarrow> length (unsettled_calls s) \<le> 1"
proof -
  assume a: "settles_once s"
  note f = no_unsettled_calls
  show ?thesis using a
    by (cases "invocations s") (auto simp: settles_once_def unsettled_calls_def f)
qed

text \<open>
  A login that the process survives: at most one call of \<^verbatim>\<open>resolve\<close> or \<^verbatim>\<open>reject\<close> is
  made while \<^verbatim>\<open>settled\<close> is false; once the timer has fired there is exactly one, the
  promise holds its argument, and no later callback changes the promise.
\<close>

lemma survived_login_settles_once:
  "length (unsettled_calls (oauthLogin alias events w)) \<le> 1
   \<and> (Timeout \<in> set events \<and> \<not> crashed (oauthLogin alias events w) \<longrightarrow>
        (\<exists>out. unsettled_calls (oauthLogin alias events w) = [out]
           \<and> promise (oauthLogin alias events w) = Some out
           \<and> (\<forall>more. promise (oauthLogin alias (events @ more) w) = Some out)))"
proof -
  have once: "settles_once (oauthLogin alias events w)"
    by (simp add: oauthLogin_def settles_once_fold settles_once_start)
  have "\<exists>out. unsettled_calls (oauthLogin alias events w) = [out]
           \<and> promise (oauthLogin alias events w) = Some out
           \<and> (\<forall>more. promise (oauthLogin alias (events @ more) w) = Some out)"
    if t: "Timeout \<in> set events" and c: "\<not> crashed (oauthLogin alias events w)"
  proof -
    have "settled (oauthLogin alias events w)"
      using t c by (simp add: oauthLogin_def settled_Timeout)
    then obtain out where
      o: "unsettled_calls (oauthLogin alias events w) = [out]"
         "promise (oauthLogin alias events w) = Some out"
      using once settles_once_calls by blast
    have "\<forall>more. promise (oauthLogin alias (events @ more) w) = Some out"
      using o(2) by (simp add: oauthLogin_def promise_fold)
    then show ?thesis using o by blast
  qed
  then show ?thesis using once settles_once_at_most by blast
qed

lemma late_exchange_run:
  "unsettled_calls (oauthLogin ''prod'' late_exchange \<lparr>creds = None, writes = 0\<rparr>)
       = [Rejected (Error ''Login timed out after 2 minutes. Try again.'')]
   \<and> promise (oauthLogin ''prod'' late_exchange \<lparr>creds = None, writes = 0\<rparr>)
       = Some (Rejected (Error ''Login timed out after 2 minutes. Try again.''))
   \<and> invocations (oauthLogin ''prod'' late_exchange \<lparr>creds = None, writes = 0\<rparr>)
       = [(False, Rejected (Error ''Login timed out after 2 minutes. Try again.'')),
          (True, Resolved stored_org)]
   \<and> creds (oauthLogin ''prod'' late_exchange \<lparr>creds = None, writes = 0\<rparr>)
       = Some [(''prod'', stored_org)]"
  by (simp add: late_exchange_def oauthLogin_def start_def invoke_def unsettled_calls_def
      save_login_def saveOrgs_def loadOrgs_def set_prop_def is_array_index_def is_digit_def)

text \<open>
  Claim C2 (the code departs from it). While the process lives the promise is settled
  as the claim says (\<open>survived_login_settles_once\<close>). A callback request whose target
  does not parse makes \<^verbatim>\<open>new URL\<close> throw before the \<^verbatim>\<open>try\<close>: the process ends with the
  promise pending, neither \<^verbatim>\<open>resolve\<close> nor \<^verbatim>\<open>reject\<close> has been called, and the timer
  never fires.
\<close>

theorem oauthLogin_unparsed_target:
  "promise (oauthLogin alias unparsed_target w) = None
   \<and> invocations (oauthLogin alias unparsed_target w) = []
   \<and> unsettled_calls (oauthLogin alias unparsed_target w) = []
   \<and> \<not> settled (oauthLogin alias unparsed_target w)
   \<and> crashed (oauthLogin alias unparsed_target w)
   \<and> Timeout \<in> set unparsed_target"
  by (simp add: unparsed_target_def oauthLogin_def start_def unsettled_calls_def)

lemma map_of_replace:
  "key \<in> set (map fst obj) \<Longrightarrow>
   map_of (map (\<lambda>(k, w). if k = key then (k, v) else (k, w)) obj) key = Some v"
  by (induction obj) auto

lemma keys_refreshToken:
  "Object_keys (loadOrgs (snd (refreshToken org w))) = Object_keys (loadOrgs w)"
proof -
  let ?req = "TokenRequest (loginUrl org) (refreshToken' org)"
  obtain x w1 where f: "fetch ?req w = (x, w1)" by (cases "fetch ?req w")
  have l: "loadOrgs w1 = loadOrgs w" using loadOrgs_fetch [of ?req w] f by simp
  show ?thesis
    by (simp add: refreshToken_def f l Let_def Object_keys_def keys_update_own split: sum.splits)
qed

lemma creds_invoke [simp]: "loadOrgs (invoke out s) = loadOrgs s"
  by (simp add: invoke_def loadOrgs_def)

lemma loadOrgs_more [simp]:
  "loadOrgs (s\<lparr>listening := b\<rparr>) = loadOrgs s"
  "loadOrgs (s\<lparr>awaiting := n\<rparr>) = loadOrgs s"
  "loadOrgs (s\<lparr>crashed := c\<rparr>) = loadOrgs s"
  by (simp_all add: loadOrgs_def)

lemma loadOrgs_save_login [simp]:
  "loadOrgs (save_login alias orgData w) = set_prop (loadOrgs w) alias orgData"
  by (simp add: save_login_def)

lemma distinct_step:
  "distinct (Object_keys (loadOrgs s)) \<Longrightarrow> distinct (Object_keys (loadOrgs (step alias e s)))"
proof (cases e)
  case (Callback url)
  assume a: "distinct (Object_keys (loadOrgs s))"
  show ?thesis
  proof (cases url)
    case (Inl err)
    then show ?thesis using a Callback by simp
  next
    case (Inr p)
    obtain pathname code error where p: "p = (pathname, code, error)" by (cases p)
    show ?thesis using a Callback Inr p by simp
  qed
next
  case (Exchanged r)
  assume a: "distinct (Object_keys (loadOrgs s))"
  then show ?thesis using Exchanged
    by (cases r) (simp_all add: Object_keys_def distinct_set_prop del: map_map)
next
  case (ServerError msg)
  assume a: "distinct (Object_keys (loadOrgs s))"
  then show ?thesis using ServerError by simp
next
  case Timeout
  assume a: "distinct (Object_keys (loadOrgs s))"
  then show ?thesis using Timeout by simp
qed

lemma distinct_fold:
  "distinct (Object_keys (loadOrgs s)) \<Longrightarrow>
   distinct (Object_keys (loadOrgs (fold (step alias) events s)))"
  by (induction events arbitrary: s) (simp_all add: distinct_step)

lemma loadOrgs_start [simp]: "loadOrgs (start w) = loadOrgs w"
  by (simp add: start_def loadOrgs_def)

lemma distinct_logout:
  "distinct (Object_keys (loadOrgs w)) \<Longrightarrow>
   distinct (Object_keys (loadOrgs (snd (sf_org_logout alias w))))"
  by (simp add: sf_org_logout_def Let_def Object_keys_def distinct_delete_prop del: map_map)

text \<open>
  Claim C7. A store in which no alias occurs twice stays so through a whole login,
  through the save of a login, through a token refresh and through a logout; and a
  login under an alias that is already stored keeps the keys as they are and puts the
  new record in the place of the old one.
\<close>

theorem alias_identifies_one_record:
  fixes w :: world
  assumes "distinct (Object_keys (loadOrgs w))"
  shows "distinct (Object_keys (loadOrgs (oauthLogin alias events w)))
    \<and> distinct (Object_keys (loadOrgs (save_login alias orgData w)))
    \<and> distinct (Object_keys (loadOrgs (snd (refreshToken org w))))
    \<and> distinct (Object_keys (loadOrgs (snd (sf_org_logout alias w))))
    \<and> (alias \<in> set (Object_keys (loadOrgs w)) \<longrightarrow>
         Object_keys (loadOrgs (save_login alias orgData w)) = Object_keys (loadOrgs w)
         \<and> map_of (loadOrgs (save_login alias orgData w)) alias = Some orgData)"
proof -
  have a: "distinct (Object_keys (loadOrgs (oauthLogin alias events w)))"
    using assms by (simp add: oauthLogin_def distinct_fold)
  have b: "distinct (Object_keys (loadOrgs (save_login alias orgData w)))"
    using assms by (simp add: Object_keys_def distinct_set_prop del: map_map)
  have c: "distinct (Object_keys (loadOrgs (snd (refreshToken org w))))"
    using assms by (simp add: keys_refreshToken)
  have d: "distinct (Object_keys (loadOrgs (snd (sf_org_logout alias w))))"
    using assms by (rule distinct_logout)
  have e: "alias \<in> set (Object_keys (loadOrgs w)) \<longrightarrow>
         Object_keys (loadOrgs (save_login alias orgData w)) = Object_keys (loadOrgs w)
         \<and> map_of (loadOrgs (save_login alias orgData w)) alias = Some orgData"
    by (simp add: Object_keys_def set_prop_def keys_replace map_of_replace del: map_map)
  show ?thesis using a b c d e by blast
qed

theorem alias_identifies_one_record_witness:
  "distinct (Object_keys (loadOrgs (world_of [])))
   \<and> loadOrgs (save_login ''prod'' no_fields (world_of []))
       = [(''prod'', no_fields), (''dev'', no_fields)]
   \<and> distinct (Object_keys (loadOrgs (save_login ''7'' stored_org (world_of []))))"
  using alias_identifies_one_record [of "world_of []" "''prod''" "[]" no_fields "spread ''prod'' (Own stored_org)"]
    alias_identifies_one_record [of "world_of []" "''7''" "[]" stored_org "spread ''prod'' (Own stored_org)"]
  by (simp add: world_of_def loadOrgs_def Object_keys_def save_login_def saveOrgs_def set_prop_def)

end
